theory Spec2Isabelle
  imports Main "HOL-Library.Word" "HOL-Library.List_Lexorder"
begin

unbundle bit_operations_syntax

section \<open>Python strings\<close>

text \<open>
  The notebook \<^verbatim>\<open>eda/touche23-valueeval.ipynb\<close> works on Python \<^verbatim>\<open>str\<close> values: sequences
  of Unicode code points. A code point is a natural number and a string is a list of
  them; comparison of strings (used by the sorted \<^verbatim>\<open>groupby\<close>) is the lexicographic order
  on code points. The cells of the three input tables are strings decoded from UTF-8
  files, hence sequences of Unicode scalar values.
\<close>

type_synonym codepoint = nat
type_synonym str = "codepoint list"
type_synonym u8 = "8 word"
type_synonym u64 = "64 word"

definition lit :: "string \<Rightarrow> str" where
  "lit s = map of_char s"

text \<open>
  \<^verbatim>\<open>str.strip()\<close> and \<^verbatim>\<open>str.split()\<close> without arguments use the whitespace test of CPython
  (\<^verbatim>\<open>Py_UNICODE_ISSPACE\<close>); with the Unicode 14 tables of Python 3.11 these are the
  following code points.
\<close>

definition Py_UNICODE_ISSPACE :: "codepoint \<Rightarrow> bool" where
  "Py_UNICODE_ISSPACE c \<longleftrightarrow>
     (0x9 \<le> c \<and> c \<le> 0xD) \<or> (0x1C \<le> c \<and> c \<le> 0x20) \<or> c = 0x85 \<or> c = 0xA0 \<or>
     c = 0x1680 \<or> (0x2000 \<le> c \<and> c \<le> 0x200A) \<or> c = 0x2028 \<or> c = 0x2029 \<or>
     c = 0x202F \<or> c = 0x205F \<or> c = 0x3000"

text \<open>
  The case tables of the Unicode character database and the NFKD normalisation of
  \<^verbatim>\<open>unicodedata\<close> belong to the Python runtime, not to the repository. They are a
  parameter of the model.
\<close>

record ucd =
  ToLowerFull :: "codepoint \<Rightarrow> str"
  IsCased :: "codepoint \<Rightarrow> bool"
  IsCaseIgnorable :: "codepoint \<Rightarrow> bool"
  NFKD :: "str \<Rightarrow> str"

definition str_strip :: "str \<Rightarrow> str" where
  "str_strip s = rev (dropWhile Py_UNICODE_ISSPACE (rev (dropWhile Py_UNICODE_ISSPACE s)))"

text \<open>
  \<^verbatim>\<open>str.split()\<close>: the words between runs of whitespace, none of them empty.
  \<open>split_from w cs\<close> scans \<open>cs\<close> with the word \<open>w\<close> read so far.
\<close>

fun split_from :: "str \<Rightarrow> str \<Rightarrow> str list" where
  "split_from w [] = (if w = [] then [] else [w])"
| "split_from w (c # cs) =
     (if Py_UNICODE_ISSPACE c then (if w = [] then [] else [w]) @ split_from [] cs
      else split_from (w @ [c]) cs)"

definition str_split :: "str \<Rightarrow> str list" where
  "str_split s = split_from [] s"

fun str_join :: "str \<Rightarrow> str list \<Rightarrow> str" where
  "str_join sep [] = []"
| "str_join sep [x] = x"
| "str_join sep (x # y # ys) = x @ sep @ str_join sep (y # ys)"

text \<open>
  \<^verbatim>\<open>str.lower()\<close> maps every character through the full lower-case mapping, except the
  capital sigma U+03A3: it becomes the final sigma U+03C2 when a cased letter precedes it
  and none follows it (case-ignorable characters skipped on both sides), and the small
  sigma U+03C3 otherwise (\<^verbatim>\<open>handle_capital_sigma\<close> in CPython). \<open>left\<close> is the text before
  the character, nearest character first, \<open>right\<close> the text behind it.
\<close>

definition handle_capital_sigma :: "ucd \<Rightarrow> str \<Rightarrow> str \<Rightarrow> codepoint" where
  "handle_capital_sigma db left right =
     (let final_sigma =
        (case dropWhile (IsCaseIgnorable db) left of
           [] \<Rightarrow> False
         | c # _ \<Rightarrow> IsCased db c \<and>
             (case dropWhile (IsCaseIgnorable db) right of
                [] \<Rightarrow> True
              | d # _ \<Rightarrow> \<not> IsCased db d))
      in if final_sigma then 0x3C2 else 0x3C3)"

definition lower_ucs4 :: "ucd \<Rightarrow> str \<Rightarrow> codepoint \<Rightarrow> str \<Rightarrow> str" where
  "lower_ucs4 db left c right =
     (if c = 0x3A3 then [handle_capital_sigma db left right] else ToLowerFull db c)"

fun lower_from :: "ucd \<Rightarrow> str \<Rightarrow> str \<Rightarrow> str" where
  "lower_from db left [] = []"
| "lower_from db left (c # cs) = lower_ucs4 db left c cs @ lower_from db (c # left) cs"

definition str_lower :: "ucd \<Rightarrow> str \<Rightarrow> str" where
  "str_lower db s = lower_from db [] s"

text \<open>\<^verbatim>\<open>s[i]\<close> for an index \<open>i \<ge> 0\<close>: a string of one character, or IndexError.\<close>

datatype py_error = IndexError

definition str_getitem :: "str \<Rightarrow> nat \<Rightarrow> py_error + str" where
  "str_getitem s i = (if i < length s then Inr [s ! i] else Inl IndexError)"

section \<open>The xxHash digest\<close>

text \<open>
  \<^verbatim>\<open>xxh64_hexdigest(text, seed)\<close> of the \<^verbatim>\<open>xxhash\<close> package hashes the UTF-8 encoding of a
  string with the 64-bit xxHash function and prints the digest as 16 lower-case
  hexadecimal digits, most significant first.
\<close>

definition utf8_encode_char :: "codepoint \<Rightarrow> u8 list" where
  "utf8_encode_char c =
     (if c < 0x80 then [of_nat c]
      else if c < 0x800 then [of_nat (0xC0 + c div 0x40), of_nat (0x80 + c mod 0x40)]
      else if c < 0x10000 then
        [of_nat (0xE0 + c div 0x1000), of_nat (0x80 + c div 0x40 mod 0x40),
         of_nat (0x80 + c mod 0x40)]
      else
        [of_nat (0xF0 + c div 0x40000), of_nat (0x80 + c div 0x1000 mod 0x40),
         of_nat (0x80 + c div 0x40 mod 0x40), of_nat (0x80 + c mod 0x40)])"

definition utf8_encode :: "str \<Rightarrow> u8 list" where
  "utf8_encode s = concat (map utf8_encode_char s)"

definition PRIME64_1 :: u64 where "PRIME64_1 = 0x9E3779B185EBCA87"
definition PRIME64_2 :: u64 where "PRIME64_2 = 0xC2B2AE3D27D4EB4F"
definition PRIME64_3 :: u64 where "PRIME64_3 = 0x165667B19E3779F9"
definition PRIME64_4 :: u64 where "PRIME64_4 = 0x85EBCA77C2B2AE63"
definition PRIME64_5 :: u64 where "PRIME64_5 = 0x27D4EB2F165667C5"

definition rotl64 :: "u64 \<Rightarrow> nat \<Rightarrow> u64" where
  "rotl64 x r = push_bit r x OR drop_bit (64 - r) x"

text \<open>A little-endian read of the bytes \<open>bs\<close> (four or eight of them).\<close>

definition read_le :: "u8 list \<Rightarrow> u64" where
  "read_le bs = foldr (\<lambda>b acc. ucast b OR push_bit 8 acc) bs 0"

definition XXH64_round :: "u64 \<Rightarrow> u64 \<Rightarrow> u64" where
  "XXH64_round acc input = rotl64 (acc + input * PRIME64_2) 31 * PRIME64_1"

definition XXH64_mergeRound :: "u64 \<Rightarrow> u64 \<Rightarrow> u64" where
  "XXH64_mergeRound acc val = (acc XOR XXH64_round 0 val) * PRIME64_1 + PRIME64_4"

definition XXH64_avalanche :: "u64 \<Rightarrow> u64" where
  "XXH64_avalanche h0 =
     (let h1 = (h0 XOR drop_bit 33 h0) * PRIME64_2;
          h2 = (h1 XOR drop_bit 29 h1) * PRIME64_3
      in h2 XOR drop_bit 32 h2)"

text \<open>The main loop: one round per lane for every full stripe of 32 bytes.\<close>

function XXH64_stripes ::
  "u8 list \<Rightarrow> u64 \<times> u64 \<times> u64 \<times> u64 \<Rightarrow> u8 list \<times> u64 \<times> u64 \<times> u64 \<times> u64" where
  "XXH64_stripes p (v1, v2, v3, v4) =
     (if 32 \<le> length p then
        XXH64_stripes (drop 32 p)
          (XXH64_round v1 (read_le (take 8 p)),
           XXH64_round v2 (read_le (take 8 (drop 8 p))),
           XXH64_round v3 (read_le (take 8 (drop 16 p))),
           XXH64_round v4 (read_le (take 8 (drop 24 p))))
      else (p, v1, v2, v3, v4))"
  by pat_completeness auto
termination
  by (relation "measure (\<lambda>(p, _). length p)") auto

declare XXH64_stripes.simps [simp del]

text \<open>The tail: words of eight bytes, then one of four, then single bytes.\<close>

function XXH64_finalize8 :: "u64 \<Rightarrow> u8 list \<Rightarrow> u64 \<times> u8 list" where
  "XXH64_finalize8 h p =
     (if 8 \<le> length p then
        XXH64_finalize8
          (rotl64 (h XOR XXH64_round 0 (read_le (take 8 p))) 27 * PRIME64_1 + PRIME64_4)
          (drop 8 p)
      else (h, p))"
  by pat_completeness auto
termination
  by (relation "measure (\<lambda>(_, p). length p)") auto

declare XXH64_finalize8.simps [simp del]

fun XXH64_finalize1 :: "u64 \<Rightarrow> u8 list \<Rightarrow> u64" where
  "XXH64_finalize1 h [] = h"
| "XXH64_finalize1 h (b # p) =
     XXH64_finalize1 (rotl64 (h XOR ucast b * PRIME64_5) 11 * PRIME64_1) p"

definition XXH64_finalize :: "u64 \<Rightarrow> u8 list \<Rightarrow> u64" where
  "XXH64_finalize h0 p0 =
     (let (h1, p1) = XXH64_finalize8 h0 p0;
          (h2, p2) =
            (if 4 \<le> length p1
             then (rotl64 (h1 XOR read_le (take 4 p1) * PRIME64_1) 23 * PRIME64_2 + PRIME64_3,
                   drop 4 p1)
             else (h1, p1))
      in XXH64_avalanche (XXH64_finalize1 h2 p2))"

definition XXH64 :: "u8 list \<Rightarrow> u64 \<Rightarrow> u64" where
  "XXH64 input seed =
     (let (p, h) =
        (if 32 \<le> length input then
           (let (p, v1, v2, v3, v4) =
                  XXH64_stripes input
                    (seed + PRIME64_1 + PRIME64_2, seed + PRIME64_2, seed, seed - PRIME64_1);
                h = rotl64 v1 1 + rotl64 v2 7 + rotl64 v3 12 + rotl64 v4 18
            in (p, XXH64_mergeRound
                     (XXH64_mergeRound (XXH64_mergeRound (XXH64_mergeRound h v1) v2) v3) v4))
         else (input, seed + PRIME64_5))
      in XXH64_finalize (h + of_nat (length input)) p)"

definition hex_digit :: "nat \<Rightarrow> codepoint" where
  "hex_digit d = (if d < 10 then 48 + d else 87 + d)"

definition hexdigest :: "u64 \<Rightarrow> str" where
  "hexdigest h = map (\<lambda>i. hex_digit (unat (drop_bit (4 * (15 - i)) h AND 0xF))) [0..<16]"

definition xxh64_hexdigest :: "str \<Rightarrow> u64 \<Rightarrow> str" where
  "xxh64_hexdigest s seed = hexdigest (XXH64 (utf8_encode s) seed)"

section \<open>The notebook\<close>

subsection \<open>Cleaning and hashing a text\<close>

definition hash_text :: "ucd \<Rightarrow> str \<Rightarrow> str" where
  "hash_text db text0 =
     (let text1 = str_join [] (str_split (str_lower db (str_strip text0)))
      in xxh64_hexdigest text1 42)"

subsection \<open>The tables\<close>

text \<open>
  A row of a raw file has the columns \<^verbatim>\<open>Argument ID\<close>, \<^verbatim>\<open>Conclusion\<close>, \<^verbatim>\<open>Stance\<close> and
  \<^verbatim>\<open>Premise\<close>, in this order, so that \<^verbatim>\<open>iloc[0, 0]\<close> is the argument id and \<^verbatim>\<open>iloc[0, 1]\<close> the
  conclusion of the first row of a table. The notebook adds the columns \<^verbatim>\<open>split\<close>,
  \<^verbatim>\<open>relation\<close>, \<^verbatim>\<open>conclusion_id\<close> and \<^verbatim>\<open>premise_id\<close>. A relation that \<^verbatim>\<open>Series.map\<close> did not
  find in the dictionary is missing (NaN): \<open>None\<close>. The cells of the four raw columns are
  strings, as \<^verbatim>\<open>hash_text\<close> expects them; an argument id may be the empty string.
\<close>

record argument_record =
  Argument_ID :: str
  Conclusion :: str
  Stance :: str
  Premise :: str

record dataset_row = argument_record +
  split :: str
  relation :: "str option"
  conclusion_id :: str
  premise_id :: str

definition stance_map :: "str \<rightharpoonup> str" where
  "stance_map = [lit ''against'' \<mapsto> lit ''Attack'', lit ''in favor of'' \<mapsto> lit ''Support'']"

definition add_columns :: "ucd \<Rightarrow> string \<Rightarrow> argument_record \<Rightarrow> dataset_row" where
  "add_columns db label r =
     \<lparr>Argument_ID = Argument_ID r, Conclusion = Conclusion r, Stance = Stance r,
      Premise = Premise r, split = lit label, relation = stance_map (Stance r),
      conclusion_id = hash_text db (Conclusion r), premise_id = hash_text db (Premise r)\<rparr>"

text \<open>\<^verbatim>\<open>pd.concat([train_data, test_data, dev_data], ignore_index=True)\<close> with the new columns.\<close>

definition build_dataset ::
  "ucd \<Rightarrow> argument_record list \<Rightarrow> argument_record list \<Rightarrow> argument_record list \<Rightarrow> dataset_row list"
  where
  "build_dataset db train_data dev_data test_data =
     map (add_columns db ''train'') train_data @ map (add_columns db ''test'') test_data @
     map (add_columns db ''validation'') dev_data"

text \<open>
  \<^verbatim>\<open>DataFrame.groupby(key)\<close> sorts the group keys and keeps the rows of a group in the order
  of the table.
\<close>

definition groupby :: "('r \<Rightarrow> str) \<Rightarrow> 'r list \<Rightarrow> (str \<times> 'r list) list" where
  "groupby key df = map (\<lambda>k. (k, filter (\<lambda>r. key r = k) df)) (sort (remdups (map key df)))"

subsection \<open>Saving the dataset\<close>

text \<open>
  A line of the output file is the JSON object that \<^verbatim>\<open>json.dumps\<close> printed on it: a node.
  The metadata of a conclusion node has the keys \<^verbatim>\<open>subdataset\<close> and \<^verbatim>\<open>type\<close>, the metadata of
  a premise node the keys \<^verbatim>\<open>argument_id\<close>, \<^verbatim>\<open>subdataset\<close>, \<^verbatim>\<open>related_to\<close>, \<^verbatim>\<open>original_split\<close>
  and \<^verbatim>\<open>type\<close>. The type of a conclusion node is the string \<^verbatim>\<open>Position\<close>, the type of a
  premise node the relation of its row, which may be missing.
\<close>

datatype metadata =
  Position_metadata (subdataset: str) (node_type: "str option")
| Premise_metadata (argument_id: str) (subdataset: str) (related_to: str) (original_split: str)
    (node_type: "str option")

record node =
  dataset :: str
  node_id :: str
  node_text :: str
  metadata :: metadata

definition conclusion_node :: "ucd \<Rightarrow> str \<Rightarrow> dataset_row list \<Rightarrow> py_error + node" where
  "conclusion_node db cid conclusion_df =
     (case conclusion_df of
        [] \<Rightarrow> Inl IndexError
      | r0 # _ \<Rightarrow>
          (case str_getitem (Argument_ID r0) 0 of
             Inl e \<Rightarrow> Inl e
           | Inr sub \<Rightarrow>
               Inr \<lparr>dataset = lit ''touche-23'', node_id = cid,
                    node_text = NFKD db (str_join (lit '' '') (str_split (str_strip (Conclusion r0)))),
                    metadata = Position_metadata sub (Some (lit ''Position''))\<rparr>))"

definition premise_node :: "ucd \<Rightarrow> str \<Rightarrow> dataset_row \<Rightarrow> py_error + node" where
  "premise_node db cid premise =
     (case str_getitem (Argument_ID premise) 0 of
        Inl e \<Rightarrow> Inl e
      | Inr sub \<Rightarrow>
          Inr \<lparr>dataset = lit ''touche-23'', node_id = premise_id premise,
               node_text = NFKD db (str_join (lit '' '') (str_split (str_strip (Premise premise)))),
               metadata = Premise_metadata (Argument_ID premise) sub cid (split premise)
                            (relation premise)\<rparr>)"

text \<open>
  The file handle is the list of lines written so far. An exception leaves the loops; the
  \<^verbatim>\<open>with\<close> block then closes the file with the lines printed until then.
\<close>

definition print_line :: "node \<Rightarrow> node list \<Rightarrow> node list" where
  "print_line n fh = fh @ [n]"

fun premise_loop :: "ucd \<Rightarrow> str \<Rightarrow> dataset_row list \<Rightarrow> node list \<Rightarrow> node list \<times> py_error option"
  where
  "premise_loop db cid [] fh = (fh, None)"
| "premise_loop db cid (premise # rest) fh =
     (case premise_node db cid premise of
        Inl e \<Rightarrow> (fh, Some e)
      | Inr n \<Rightarrow> premise_loop db cid rest (print_line n fh))"

fun group_loop ::
  "ucd \<Rightarrow> (str \<times> dataset_row list) list \<Rightarrow> node list \<Rightarrow> node list \<times> py_error option" where
  "group_loop db [] fh = (fh, None)"
| "group_loop db ((cid, conclusion_df) # groups) fh =
     (case conclusion_node db cid conclusion_df of
        Inl e \<Rightarrow> (fh, Some e)
      | Inr n \<Rightarrow>
          (case premise_loop db cid conclusion_df (print_line n fh) of
             (fh', Some e) \<Rightarrow> (fh', Some e)
           | (fh', None) \<Rightarrow> group_loop db groups fh'))"

text \<open>
  \<^verbatim>\<open>open(..., "wt")\<close> truncates the file: whatever \<open>old_file\<close> held, the handle starts empty.
  The result is the content of the file after the cell and the exception that ended it,
  if any.
\<close>

definition open_wt :: "node list \<Rightarrow> node list" where
  "open_wt old_file = []"

definition save_dataset :: "ucd \<Rightarrow> node list \<Rightarrow> dataset_row list \<Rightarrow> node list \<times> py_error option"
  where
  "save_dataset db old_file df = group_loop db (groupby conclusion_id df) (open_wt old_file)"

definition notebook ::
  "ucd \<Rightarrow> node list \<Rightarrow> argument_record list \<Rightarrow> argument_record list \<Rightarrow> argument_record list
     \<Rightarrow> node list \<times> py_error option" where
  "notebook db old_file train_data dev_data test_data =
     save_dataset db old_file (build_dataset db train_data dev_data test_data)"

section \<open>Notions of the specification\<close>

subsection \<open>The normal form of a text\<close>

text \<open>
  The specification describes the content id of a text as the hash of its normal form:
  the text trimmed, in lower case, with all whitespace removed.
\<close>

definition remove_whitespace :: "str \<Rightarrow> str" where
  "remove_whitespace s = filter (\<lambda>c. \<not> Py_UNICODE_ISSPACE c) s"

definition normal_form :: "ucd \<Rightarrow> str \<Rightarrow> str" where
  "normal_form db t = remove_whitespace (str_lower db (str_strip t))"

text \<open>
  The facts about the Unicode tables that the properties of the normal form rest on:
  whitespace has no case mapping and is neither cased nor case-ignorable; the lower-case
  mapping of a character yields characters that are their own lower case, none of them
  the capital sigma, and whitespace only from whitespace; both small sigmas are their own
  lower case; characters with the same lower case are skipped or counted alike where the
  context of a capital sigma is read. All of them hold of the tables of Unicode 14.
\<close>

definition ucd_consistent :: "ucd \<Rightarrow> bool" where
  "ucd_consistent db \<longleftrightarrow>
     (\<forall>c. Py_UNICODE_ISSPACE c \<longrightarrow>
        ToLowerFull db c = [c] \<and> \<not> IsCased db c \<and> \<not> IsCaseIgnorable db c) \<and>
     (\<forall>c d. d \<in> set (ToLowerFull db c) \<longrightarrow>
        ToLowerFull db d = [d] \<and> d \<noteq> 0x3A3 \<and> (Py_UNICODE_ISSPACE d \<longrightarrow> Py_UNICODE_ISSPACE c)) \<and>
     ToLowerFull db 0x3C2 = [0x3C2] \<and> ToLowerFull db 0x3C3 = [0x3C3] \<and>
     (\<forall>c d. ToLowerFull db c = ToLowerFull db d \<longrightarrow>
        IsCaseIgnorable db c = IsCaseIgnorable db d \<and>
        (IsCaseIgnorable db c \<or> IsCased db c = IsCased db d))"

text \<open>
  What \<open>handle_capital_sigma\<close> reads of the text on one side of a capital sigma: whether
  the first character that is not case-ignorable is cased.
\<close>

definition sigma_context :: "ucd \<Rightarrow> str \<Rightarrow> bool" where
  "sigma_context db xs =
     (case dropWhile (IsCaseIgnorable db) xs of [] \<Rightarrow> False | c # _ \<Rightarrow> IsCased db c)"

subsection \<open>Texts that differ only in whitespace and letter case\<close>





subsection \<open>An excerpt of the Unicode tables\<close>

text \<open>
  The tables of Unicode 14 for the Basic Latin block and the Greek letters alpha and
  sigma; every other character is taken as caseless. The examples below use characters of
  the excerpt only.
\<close>

definition ucd_excerpt :: ucd where
  "ucd_excerpt =
     \<lparr>ToLowerFull = (\<lambda>c. if 0x41 \<le> c \<and> c \<le> 0x5A then [c + 0x20]
                         else if c = 0x391 then [0x3B1]
                         else if c = 0x3A3 then [0x3C3] else [c]),
      IsCased = (\<lambda>c. (0x41 \<le> c \<and> c \<le> 0x5A) \<or> (0x61 \<le> c \<and> c \<le> 0x7A) \<or> c = 0x391 \<or>
                      c = 0x3A3 \<or> c = 0x3B1 \<or> c = 0x3C2 \<or> c = 0x3C3),
      IsCaseIgnorable = (\<lambda>c. c = 0x27 \<or> c = 0x2E \<or> c = 0x3A \<or> c = 0x5E \<or> c = 0x60),
      NFKD = (\<lambda>s. s)\<rparr>"

subsection \<open>Nodes of the output\<close>

text \<open>
  A position node is a node with the metadata of a conclusion, a premise node one with
  the metadata of a premise. \<open>display_text\<close> is the text as it is shown: trimmed, its
  words joined by single spaces, in NFKD, the letters as they were. \<open>position_of\<close> and
  \<open>premise_of\<close> are the two nodes of a row as the specification describes them, with the
  first character of the argument id as the sub-dataset code; \<open>block_of\<close> is the part
  of the output that belongs to a group: the position node of its first row, then the
  premise nodes of its rows.
\<close>

definition is_position :: "node \<Rightarrow> bool" where
  "is_position n = (case metadata n of Position_metadata _ _ \<Rightarrow> True | Premise_metadata _ _ _ _ _ \<Rightarrow> False)"

definition is_premise :: "node \<Rightarrow> bool" where
  "is_premise n = (case metadata n of Position_metadata _ _ \<Rightarrow> False | Premise_metadata _ _ _ _ _ \<Rightarrow> True)"

definition display_text :: "ucd \<Rightarrow> str \<Rightarrow> str" where
  "display_text db t = NFKD db (str_join (lit '' '') (str_split (str_strip t)))"

definition position_of :: "ucd \<Rightarrow> dataset_row \<Rightarrow> node" where
  "position_of db r =
     \<lparr>dataset = lit ''touche-23'', node_id = conclusion_id r,
      node_text = display_text db (Conclusion r),
      metadata = Position_metadata (take 1 (Argument_ID r)) (Some (lit ''Position''))\<rparr>"

definition premise_of :: "ucd \<Rightarrow> dataset_row \<Rightarrow> node" where
  "premise_of db r =
     \<lparr>dataset = lit ''touche-23'', node_id = premise_id r,
      node_text = display_text db (Premise r),
      metadata = Premise_metadata (Argument_ID r) (take 1 (Argument_ID r)) (conclusion_id r)
                   (split r) (relation r)\<rparr>"

definition block_of :: "ucd \<Rightarrow> dataset_row list \<Rightarrow> node list" where
  "block_of db g = position_of db (hd g) # map (premise_of db) g"

definition position_ids :: "node list \<Rightarrow> str list" where
  "position_ids fh = map node_id (filter is_position fh)"

text \<open>
  The groups of a table: none is empty, and the rows of a group have its key as their
  conclusion id. \<open>written\<close> is what the loops print for such groups: everything up to the
  first row without an argument id. \<open>listing\<close> is the output of a run that completes.
\<close>

definition groups_ok :: "(str \<times> dataset_row list) list \<Rightarrow> bool" where
  "groups_ok groups \<longleftrightarrow>
     (\<forall>(k, g)\<in>set groups. g \<noteq> [] \<and> (\<forall>r\<in>set g. conclusion_id r = k))"

fun written :: "ucd \<Rightarrow> (str \<times> dataset_row list) list \<Rightarrow> node list" where
  "written db [] = []"
| "written db ((k, g) # groups) =
     (if Argument_ID (hd g) = [] then []
      else position_of db (hd g) # map (premise_of db) (takeWhile (\<lambda>r. Argument_ID r \<noteq> []) g) @
           (if \<forall>r\<in>set g. Argument_ID r \<noteq> [] then written db groups else []))"

definition listing :: "ucd \<Rightarrow> dataset_row list \<Rightarrow> node list" where
  "listing db df = concat (map (\<lambda>(k, g). block_of db g) (groupby conclusion_id df))"

subsection \<open>Example tables\<close>

text \<open>
  Three raw tables of one row each, the table the notebook builds from them, and the
  output file. The first two conclusions differ in whitespace and letter case only, the
  third stance is not in the dictionary, and the ids are the xxHash digests with seed 42
  of \<^verbatim>\<open>banit\<close>, \<^verbatim>\<open>go\<close>, \<^verbatim>\<open>no\<close> and \<^verbatim>\<open>yes\<close>. \<open>example_bad\<close> is a table whose row has no
  argument id.
\<close>

definition example_train :: "argument_record list" where
  "example_train =
     [\<lparr>Argument_ID = lit ''A01'', Conclusion = lit '' Ban It'', Stance = lit ''against'',
       Premise = lit ''No''\<rparr>]"

definition example_test :: "argument_record list" where
  "example_test =
     [\<lparr>Argument_ID = lit ''D02'', Conclusion = lit ''ban  it'', Stance = lit ''in favor of'',
       Premise = lit ''Yes''\<rparr>]"

definition example_dev :: "argument_record list" where
  "example_dev =
     [\<lparr>Argument_ID = lit ''E03'', Conclusion = lit ''Go'', Stance = lit ''neutral'',
       Premise = lit ''no''\<rparr>]"

definition example_rows :: "dataset_row list" where
  "example_rows =
     [\<lparr>Argument_ID = lit ''A01'', Conclusion = lit '' Ban It'', Stance = lit ''against'',
       Premise = lit ''No'', split = lit ''train'', relation = Some (lit ''Attack''),
       conclusion_id = lit ''c2e83ac0f46cab19'', premise_id = lit ''83062306928d32b1''\<rparr>,
      \<lparr>Argument_ID = lit ''D02'', Conclusion = lit ''ban  it'', Stance = lit ''in favor of'',
       Premise = lit ''Yes'', split = lit ''test'', relation = Some (lit ''Support''),
       conclusion_id = lit ''c2e83ac0f46cab19'', premise_id = lit ''a96d72bfa5b8e84c''\<rparr>,
      \<lparr>Argument_ID = lit ''E03'', Conclusion = lit ''Go'', Stance = lit ''neutral'',
       Premise = lit ''no'', split = lit ''validation'', relation = None,
       conclusion_id = lit ''534d2516125c25c9'', premise_id = lit ''83062306928d32b1''\<rparr>]"

definition example_output :: "node list" where
  "example_output =
     [\<lparr>dataset = lit ''touche-23'', node_id = lit ''534d2516125c25c9'', node_text = lit ''Go'',
       metadata = Position_metadata (lit ''E'') (Some (lit ''Position''))\<rparr>,
      \<lparr>dataset = lit ''touche-23'', node_id = lit ''83062306928d32b1'', node_text = lit ''no'',
       metadata = Premise_metadata (lit ''E03'') (lit ''E'') (lit ''534d2516125c25c9'')
                    (lit ''validation'') None\<rparr>,
      \<lparr>dataset = lit ''touche-23'', node_id = lit ''c2e83ac0f46cab19'', node_text = lit ''Ban It'',
       metadata = Position_metadata (lit ''A'') (Some (lit ''Position''))\<rparr>,
      \<lparr>dataset = lit ''touche-23'', node_id = lit ''83062306928d32b1'', node_text = lit ''No'',
       metadata = Premise_metadata (lit ''A01'') (lit ''A'') (lit ''c2e83ac0f46cab19'')
                    (lit ''train'') (Some (lit ''Attack''))\<rparr>,
      \<lparr>dataset = lit ''touche-23'', node_id = lit ''a96d72bfa5b8e84c'', node_text = lit ''Yes'',
       metadata = Premise_metadata (lit ''D02'') (lit ''D'') (lit ''c2e83ac0f46cab19'')
                    (lit ''test'') (Some (lit ''Support''))\<rparr>]"


section \<open>Properties of the text functions\<close>

lemma handle_capital_sigma_context:
  "handle_capital_sigma db left right =
     (if sigma_context db left \<and> \<not> sigma_context db right then 0x3C2 else 0x3C3)"
  by (cases "dropWhile (IsCaseIgnorable db) left"; cases "dropWhile (IsCaseIgnorable db) right")
    (simp_all add: handle_capital_sigma_def sigma_context_def del: dropWhile_eq_Nil_conv)

lemma sigma_not_space: "\<not> Py_UNICODE_ISSPACE 0x3A3" "\<not> Py_UNICODE_ISSPACE 0x3C2" "\<not> Py_UNICODE_ISSPACE 0x3C3"
  by (simp_all add: Py_UNICODE_ISSPACE_def)

lemma concat_split_from: "concat (split_from w s) = w @ remove_whitespace s"
  by (induction s arbitrary: w) (simp_all add: remove_whitespace_def)

lemma str_join_empty: "str_join [] xs = concat xs"
  by (induction "[] :: str" xs rule: str_join.induct) simp_all

lemma hash_text_normal_form: "hash_text db t = xxh64_hexdigest (normal_form db t) 42"
  by (simp add: hash_text_def normal_form_def str_join_empty str_split_def concat_split_from)






lemma ucd_consistent_lower:
  "ucd_consistent db \<Longrightarrow> d \<in> set (ToLowerFull db c) \<Longrightarrow>
   ToLowerFull db d = [d] \<and> d \<noteq> 0x3A3 \<and> (Py_UNICODE_ISSPACE d \<longrightarrow> Py_UNICODE_ISSPACE c)"
  unfolding ucd_consistent_def by blast

lemma ucd_consistent_sigma:
  "ucd_consistent db \<Longrightarrow> ToLowerFull db 0x3C2 = [0x3C2] \<and> ToLowerFull db 0x3C3 = [0x3C3]"
  unfolding ucd_consistent_def by blast














lemma lower_from_image:
  assumes "ucd_consistent db"
  shows "c \<in> set (lower_from db b s) \<Longrightarrow>
         ToLowerFull db c = [c] \<and> c \<noteq> 0x3A3 \<and>
         (Py_UNICODE_ISSPACE c \<longrightarrow> (\<exists>d\<in>set s. Py_UNICODE_ISSPACE d))"
proof (induction s arbitrary: b)
  case Nil
  then show ?case by simp
next
  case (Cons e s)
  from Cons.prems consider "c \<in> set (lower_ucs4 db b e s)" | "c \<in> set (lower_from db (e # b) s)"
    by auto
  then show ?case
  proof cases
    case 1
    show ?thesis
    proof (cases "e = 0x3A3")
      case True
      with 1 have "c = 0x3C2 \<or> c = 0x3C3"
        by (simp add: lower_ucs4_def handle_capital_sigma_context split: if_splits)
      with ucd_consistent_sigma [OF assms] sigma_not_space show ?thesis by auto
    next
      case False
      with 1 have "c \<in> set (ToLowerFull db e)" by (simp add: lower_ucs4_def)
      with assms have "ToLowerFull db c = [c] \<and> c \<noteq> 0x3A3 \<and>
          (Py_UNICODE_ISSPACE c \<longrightarrow> Py_UNICODE_ISSPACE e)"
        by (rule ucd_consistent_lower)
      then show ?thesis by simp
    qed
  next
    case 2
    then have "ToLowerFull db c = [c] \<and> c \<noteq> 0x3A3 \<and>
         (Py_UNICODE_ISSPACE c \<longrightarrow> (\<exists>d\<in>set s. Py_UNICODE_ISSPACE d))"
      by (rule Cons.IH)
    then show ?thesis by auto
  qed
qed

lemma lower_from_fixed:
  "(\<And>c. c \<in> set s \<Longrightarrow> ToLowerFull db c = [c] \<and> c \<noteq> 0x3A3) \<Longrightarrow> lower_from db b s = s"
  by (induction s arbitrary: b) (simp_all add: lower_ucs4_def)

lemma dropWhile_none: "(\<And>c. c \<in> set s \<Longrightarrow> \<not> P c) \<Longrightarrow> dropWhile P s = s"
  by (cases s) simp_all

lemma str_strip_no_space:
  assumes "\<And>c. c \<in> set s \<Longrightarrow> \<not> Py_UNICODE_ISSPACE c"
  shows "str_strip s = s"
proof -
  have "dropWhile Py_UNICODE_ISSPACE s = s"
    using assms by (rule dropWhile_none)
  moreover have "dropWhile Py_UNICODE_ISSPACE (rev s) = rev s"
    by (rule dropWhile_none) (simp add: assms)
  ultimately show ?thesis by (simp add: str_strip_def)
qed

lemma normal_form_idem:
  assumes "ucd_consistent db"
  shows "normal_form db (normal_form db t) = normal_form db t"
proof -
  let ?u = "normal_form db t"
  have mem: "ToLowerFull db c = [c] \<and> c \<noteq> 0x3A3 \<and> \<not> Py_UNICODE_ISSPACE c" if "c \<in> set ?u" for c
  proof -
    from that have "c \<in> set (lower_from db [] (str_strip t))" "\<not> Py_UNICODE_ISSPACE c"
      by (simp_all add: normal_form_def remove_whitespace_def str_lower_def)
    with lower_from_image [OF assms, of c "[]" "str_strip t"] show ?thesis by simp
  qed
  have "str_strip ?u = ?u"
    by (rule str_strip_no_space) (simp add: mem)
  moreover have "str_lower db ?u = ?u"
    unfolding str_lower_def by (rule lower_from_fixed) (simp add: mem)
  moreover have "remove_whitespace ?u = ?u"
    by (simp add: remove_whitespace_def mem)
  ultimately show ?thesis by (simp add: normal_form_def [of db ?u])
qed

lemma normal_form_whitespace:
  assumes "\<And>c. c \<in> set t \<Longrightarrow> Py_UNICODE_ISSPACE c"
  shows "normal_form db t = []"
proof -
  have h: "dropWhile Py_UNICODE_ISSPACE t = []" using assms by simp
  show ?thesis
    unfolding normal_form_def str_strip_def str_lower_def remove_whitespace_def h by simp
qed

lemma ucd_excerpt_consistent: "ucd_consistent ucd_excerpt"
  unfolding ucd_consistent_def ucd_excerpt_def Py_UNICODE_ISSPACE_def
  by (auto split: if_splits)

lemma hexdigest_unfold:
  "hexdigest h = map (\<lambda>k. hex_digit (unat (drop_bit k h AND 0xF)))
     [60, 56, 52, 48, 44, 40, 36, 32, 28, 24, 20, 16, 12, 8, 4, 0]"
  by (simp add: hexdigest_def upt_rec)

lemmas xxh64_eval =
  xxh64_hexdigest_def hexdigest_unfold hex_digit_def XXH64_def XXH64_finalize_def
  XXH64_finalize8.simps XXH64_avalanche_def XXH64_round_def rotl64_def read_le_def
  utf8_encode_def utf8_encode_char_def PRIME64_1_def PRIME64_2_def PRIME64_3_def
  PRIME64_4_def PRIME64_5_def







lemma normal_form_example: "normal_form ucd_excerpt [0x20, 0x41, 0x20, 0x20, 0x62, 0x20] = [0x61, 0x62]"
  by (simp add: normal_form_def str_strip_def str_lower_def lower_ucs4_def
      handle_capital_sigma_def remove_whitespace_def Py_UNICODE_ISSPACE_def ucd_excerpt_def)

section \<open>Digests of the reference implementation\<close>

text \<open>
  The digests that the reference implementation of xxHash and the \<^verbatim>\<open>xxhash\<close> package
  give for some inputs; the last input is longer than a stripe.
\<close>

lemma XXH64_reference_short:
  "XXH64 [] 0 = 0xEF46DB3751D8E999"
  "XXH64 (utf8_encode (lit ''a'')) 0 = 0xD24EC4F1A98C6E5B"
  "xxh64_hexdigest (lit ''xxhash'') 0 = lit ''32dd38952c4bc720''"
  "xxh64_hexdigest (lit ''xxhash'') 20141025 = lit ''b559b98d844e0635''"
  by (simp_all add: xxh64_eval lit_def)

lemma XXH64_reference_long:
  "XXH64 (utf8_encode (lit ''Call me Ishmael. Some years ago--never mind how long precisely-'')) 0 =
     0x02A2E85470D6FD96"
  by code_simp

section \<open>Content ids\<close>




text \<open>
  Claim C10. The content id of a text is the content id of its normal form (the text
  trimmed, in lower case, without whitespace), for Unicode tables that are consistent in
  the sense of \<open>ucd_consistent\<close>; and a text of whitespace only has the content id of the
  empty text, for any tables.
\<close>

theorem hash_text_normal_form_invariant:
  "(ucd_consistent db \<longrightarrow> hash_text db (normal_form db t) = hash_text db t) \<and>
   ((\<forall>c\<in>set t. Py_UNICODE_ISSPACE c) \<longrightarrow> hash_text db t = hash_text db [])"
proof (intro conjI impI)
  assume "ucd_consistent db"
  then show "hash_text db (normal_form db t) = hash_text db t"
    by (simp add: hash_text_normal_form normal_form_idem)
next
  assume "\<forall>c\<in>set t. Py_UNICODE_ISSPACE c"
  then have "normal_form db t = []" by (intro normal_form_whitespace) simp
  moreover have "normal_form db [] = []" by (intro normal_form_whitespace) simp
  ultimately show "hash_text db t = hash_text db []"
    by (simp add: hash_text_normal_form)
qed

theorem hash_text_normal_form_invariant_witness:
  "ucd_consistent ucd_excerpt \<and>
   normal_form ucd_excerpt [0x20, 0x41, 0x20, 0x20, 0x62, 0x20] = [0x61, 0x62] \<and>
   hash_text ucd_excerpt [0x61, 0x62] = hash_text ucd_excerpt [0x20, 0x41, 0x20, 0x20, 0x62, 0x20] \<and>
   Py_UNICODE_ISSPACE 0x20 \<and> Py_UNICODE_ISSPACE 0x9 \<and>
   hash_text ucd_excerpt [0x20, 0x9, 0x20] = hash_text ucd_excerpt []"
proof -
  have sp: "Py_UNICODE_ISSPACE 0x20" "Py_UNICODE_ISSPACE 0x9"
    by (simp_all add: Py_UNICODE_ISSPACE_def)
  then have "\<forall>c\<in>set [0x20, 0x9, 0x20]. Py_UNICODE_ISSPACE c" by simp
  with hash_text_normal_form_invariant [of ucd_excerpt "[0x20, 0x9, 0x20]"]
  have "hash_text ucd_excerpt [0x20, 0x9, 0x20] = hash_text ucd_excerpt []" by blast
  moreover from hash_text_normal_form_invariant [of ucd_excerpt "[0x20, 0x41, 0x20, 0x20, 0x62, 0x20]"]
    ucd_excerpt_consistent
  have "hash_text ucd_excerpt [0x61, 0x62] = hash_text ucd_excerpt [0x20, 0x41, 0x20, 0x20, 0x62, 0x20]"
    by (simp add: normal_form_example)
  ultimately show ?thesis
    using sp ucd_excerpt_consistent normal_form_example by simp
qed

section \<open>The loops of the save cell\<close>

lemma is_premise_iff: "is_premise n \<longleftrightarrow> \<not> is_position n"
  by (simp add: is_premise_def is_position_def split: metadata.splits)

lemma py_error_cases: "e = IndexError"
  by (cases e) simp

lemma take_1_getitem: "s \<noteq> [] \<Longrightarrow> str_getitem s 0 = Inr (take 1 s)"
  by (cases s) (simp_all add: str_getitem_def)

lemma getitem_empty: "str_getitem [] 0 = Inl IndexError"
  by (simp add: str_getitem_def)

lemma conclusion_node_Cons:
  "conclusion_node db (conclusion_id r) (r # rs) =
     (if Argument_ID r = [] then Inl IndexError else Inr (position_of db r))"
  by (simp add: conclusion_node_def position_of_def display_text_def take_1_getitem getitem_empty)

lemma conclusion_node_Nil: "conclusion_node db cid [] = Inl IndexError"
  by (simp add: conclusion_node_def)

lemma premise_node_eq:
  "premise_node db (conclusion_id r) r =
     (if Argument_ID r = [] then Inl IndexError else Inr (premise_of db r))"
  by (simp add: premise_node_def premise_of_def display_text_def take_1_getitem getitem_empty)

text \<open>The premise loop prints the rows up to the first one without an argument id.\<close>

lemma premise_loop_eq:
  "(\<And>r. r \<in> set rows \<Longrightarrow> conclusion_id r = cid) \<Longrightarrow>
   premise_loop db cid rows fh =
     (fh @ map (premise_of db) (takeWhile (\<lambda>r. Argument_ID r \<noteq> []) rows),
      if \<forall>r\<in>set rows. Argument_ID r \<noteq> [] then None else Some IndexError)"
proof (induction rows arbitrary: fh)
  case Nil
  then show ?case by simp
next
  case (Cons r rows)
  have cid: "cid = conclusion_id r" using Cons.prems by simp
  have IH: "premise_loop db cid rows fh' =
     (fh' @ map (premise_of db) (takeWhile (\<lambda>r. Argument_ID r \<noteq> []) rows),
      if \<forall>r\<in>set rows. Argument_ID r \<noteq> [] then None else Some IndexError)" for fh'
    by (rule Cons.IH) (simp add: Cons.prems)
  show ?case
  proof (cases "Argument_ID r = []")
    case True
    then show ?thesis by (simp add: cid premise_node_eq)
  next
    case False
    then show ?thesis
      using IH [of "print_line (premise_of db r) fh"]
      by (simp add: premise_node_eq [of db r, folded cid] print_line_def)
  qed
qed

lemma groups_ok_Cons:
  "groups_ok ((k, g) # groups) \<longleftrightarrow>
     g \<noteq> [] \<and> (\<forall>r\<in>set g. conclusion_id r = k) \<and> groups_ok groups"
  by (auto simp: groups_ok_def)

lemma group_loop_complete:
  "groups_ok groups \<Longrightarrow> \<forall>r\<in>set (concat (map snd groups)). Argument_ID r \<noteq> [] \<Longrightarrow>
   group_loop db groups fh = (fh @ concat (map (\<lambda>(k, g). block_of db g) groups), None)"
proof (induction groups arbitrary: fh)
  case Nil
  then show ?case by simp
next
  case (Cons kg groups)
  obtain k g where kg: "kg = (k, g)" by (cases kg)
  from Cons.prems(1) kg have g: "g \<noteq> []" "\<And>r. r \<in> set g \<Longrightarrow> conclusion_id r = k"
    and ok: "groups_ok groups"
    by (simp_all add: groups_ok_Cons)
  from Cons.prems(2) kg have ids: "\<forall>r\<in>set g. Argument_ID r \<noteq> []"
    and rest: "\<forall>r\<in>set (concat (map snd groups)). Argument_ID r \<noteq> []"
    by simp_all
  from g obtain r0 rs where g_eq: "g = r0 # rs" by (cases g) simp_all
  have k: "k = conclusion_id r0" using g(2) g_eq by simp
  have r0: "Argument_ID r0 \<noteq> []" using ids g_eq by simp
  have c: "conclusion_node db k g = Inr (position_of db r0)"
    using r0 by (simp add: g_eq k conclusion_node_Cons)
  have tw: "takeWhile (\<lambda>r. Argument_ID r \<noteq> []) g = g"
    using ids by simp
  have p: "premise_loop db k g fh' = (fh' @ map (premise_of db) g, None)" for fh'
    using premise_loop_eq [of g k db fh'] g(2) ids by (simp add: tw)
  have hd: "hd g = r0" by (simp add: g_eq)
  show ?case
    using Cons.IH [OF ok rest]
    by (simp add: kg c p print_line_def block_of_def hd)
qed

lemma group_loop_error:
  "groups_ok groups \<Longrightarrow> \<exists>r\<in>set (concat (map snd groups)). Argument_ID r = [] \<Longrightarrow>
   snd (group_loop db groups fh) = Some IndexError"
proof (induction groups arbitrary: fh)
  case Nil
  then show ?case by simp
next
  case (Cons kg groups)
  obtain k g where kg: "kg = (k, g)" by (cases kg)
  from Cons.prems(1) kg have g: "g \<noteq> []" "\<And>r. r \<in> set g \<Longrightarrow> conclusion_id r = k"
    and ok: "groups_ok groups"
    by (simp_all add: groups_ok_Cons)
  from g obtain r0 rs where g_eq: "g = r0 # rs" by (cases g) simp_all
  have k: "k = conclusion_id r0" using g(2) g_eq by simp
  show ?case
  proof (cases "\<forall>r\<in>set g. Argument_ID r \<noteq> []")
    case True
    with Cons.prems(2) kg have rest: "\<exists>r\<in>set (concat (map snd groups)). Argument_ID r = []"
      by auto
    have c: "conclusion_node db k g = Inr (position_of db r0)"
      using True by (simp add: g_eq k conclusion_node_Cons)
    have tw: "takeWhile (\<lambda>r. Argument_ID r \<noteq> []) g = g"
      using True by simp
    have p: "premise_loop db k g fh' = (fh' @ map (premise_of db) g, None)" for fh'
      using premise_loop_eq [of g k db fh'] g(2) True by (simp add: tw)
    show ?thesis
      using Cons.IH [OF ok rest] by (simp add: kg c p)
  next
    case False
    show ?thesis
    proof (cases "Argument_ID r0 = []")
      case True
      then show ?thesis by (simp add: kg g_eq k conclusion_node_Cons)
    next
      case r0: False
      then have c: "conclusion_node db k g = Inr (position_of db r0)"
        by (simp add: g_eq k conclusion_node_Cons)
      have "snd (premise_loop db k g fh') = Some IndexError" for fh'
        using premise_loop_eq [of g k db fh'] g(2) False by simp
      then have "\<exists>fh''. premise_loop db k g fh' = (fh'', Some IndexError)" for fh'
        by (metis prod.collapse)
      then obtain fh'' where
        "premise_loop db k g (print_line (position_of db r0) fh) = (fh'', Some IndexError)"
        by blast
      then show ?thesis by (simp add: kg c)
    qed
  qed
qed

lemma group_loop_written:
  "groups_ok groups \<Longrightarrow> fst (group_loop db groups fh) = fh @ written db groups"
proof (induction groups arbitrary: fh)
  case Nil
  then show ?case by simp
next
  case (Cons kg groups)
  obtain k g where kg: "kg = (k, g)" by (cases kg)
  from Cons.prems(1) kg have g: "g \<noteq> []" "\<And>r. r \<in> set g \<Longrightarrow> conclusion_id r = k"
    and ok: "groups_ok groups"
    by (simp_all add: groups_ok_Cons)
  from g obtain r0 rs where g_eq: "g = r0 # rs" by (cases g) simp_all
  have k: "k = conclusion_id r0" using g(2) g_eq by simp
  have hd: "hd g = r0" by (simp add: g_eq)
  have c: "conclusion_node db k g =
      (if Argument_ID r0 = [] then Inl IndexError else Inr (position_of db r0))"
    by (simp add: g_eq k conclusion_node_Cons)
  have p: "premise_loop db k g fh' =
     (fh' @ map (premise_of db) (takeWhile (\<lambda>r. Argument_ID r \<noteq> []) g),
      if \<forall>r\<in>set g. Argument_ID r \<noteq> [] then None else Some IndexError)" for fh'
    by (rule premise_loop_eq) (rule g(2))
  show ?case
    using Cons.IH [OF ok] by (simp add: kg c p hd print_line_def)
qed

lemma groupby_fst: "map fst (groupby key df) = sort (remdups (map key df))"
  by (simp add: groupby_def comp_def)

lemma groupby_member:
  "(k, g) \<in> set (groupby key df) \<longleftrightarrow> k \<in> key ` set df \<and> g = filter (\<lambda>r. key r = k) df"
  by (auto simp: groupby_def)

lemma groupby_ok: "groups_ok (groupby conclusion_id df)"
  unfolding groups_ok_def
proof (intro ballI, clarify)
  fix k g
  assume "(k, g) \<in> set (groupby conclusion_id df)"
  then have k: "k \<in> conclusion_id ` set df" and g: "g = filter (\<lambda>r. conclusion_id r = k) df"
    by (simp_all add: groupby_member)
  from k have "g \<noteq> []" by (auto simp: g filter_empty_conv)
  then show "g \<noteq> [] \<and> (\<forall>r\<in>set g. conclusion_id r = k)" by (simp add: g)
qed

lemma groupby_rows: "set (concat (map snd (groupby key df))) = set df"
  by (auto simp: groupby_def)




lemma save_dataset_written:
  "fst (save_dataset db old_file df) = written db (groupby conclusion_id df)"
  by (simp add: save_dataset_def open_wt_def group_loop_written groupby_ok)

lemma save_dataset_status:
  "snd (save_dataset db old_file df) =
     (if \<forall>r\<in>set df. Argument_ID r \<noteq> [] then None else Some IndexError)"
proof (cases "\<forall>r\<in>set df. Argument_ID r \<noteq> []")
  case True
  then have "\<forall>r\<in>set (concat (map snd (groupby conclusion_id df))). Argument_ID r \<noteq> []"
    by (simp only: groupby_rows)
  with groupby_ok have "group_loop db (groupby conclusion_id df) [] =
      ([] @ concat (map (\<lambda>(k, g). block_of db g) (groupby conclusion_id df)), None)"
    by (rule group_loop_complete)
  with True show ?thesis by (simp add: save_dataset_def open_wt_def)
next
  case False
  then have "\<exists>r\<in>set (concat (map snd (groupby conclusion_id df))). Argument_ID r = []"
    by (simp only: groupby_rows) simp
  with groupby_ok have "snd (group_loop db (groupby conclusion_id df) []) = Some IndexError"
    by (rule group_loop_error)
  with False show ?thesis by (simp add: save_dataset_def open_wt_def)
qed

lemma save_dataset_complete:
  assumes "\<forall>r\<in>set df. Argument_ID r \<noteq> []"
  shows "save_dataset db old_file df = (listing db df, None)"
proof -
  from assms have "\<forall>r\<in>set (concat (map snd (groupby conclusion_id df))). Argument_ID r \<noteq> []"
    by (simp only: groupby_rows)
  with groupby_ok have "group_loop db (groupby conclusion_id df) [] =
      ([] @ concat (map (\<lambda>(k, g). block_of db g) (groupby conclusion_id df)), None)"
    by (rule group_loop_complete)
  then show ?thesis by (simp add: save_dataset_def open_wt_def listing_def)
qed

text \<open>Every node in the file comes from a row with an argument id.\<close>

lemma written_origin:
  "groups_ok groups \<Longrightarrow> n \<in> set (written db groups) \<Longrightarrow>
   \<exists>r\<in>set (concat (map snd groups)). Argument_ID r \<noteq> [] \<and> (n = position_of db r \<or> n = premise_of db r)"
proof (induction groups)
  case Nil
  then show ?case by simp
next
  case (Cons kg groups)
  obtain k g where kg: "kg = (k, g)" by (cases kg)
  from Cons.prems(1) kg have g: "g \<noteq> []" and ok: "groups_ok groups"
    by (simp_all add: groups_ok_Cons)
  then have hd: "hd g \<in> set g" by simp
  from Cons.prems(2) kg have id0: "Argument_ID (hd g) \<noteq> []"
    and n: "n = position_of db (hd g) \<or>
        n \<in> premise_of db ` set (takeWhile (\<lambda>r. Argument_ID r \<noteq> []) g) \<or>
        n \<in> set (written db groups)"
    by (auto split: if_splits)
  from n show ?case
  proof (elim disjE)
    assume "n = position_of db (hd g)"
    with hd id0 show ?thesis by (auto simp: kg)
  next
    assume "n \<in> premise_of db ` set (takeWhile (\<lambda>r. Argument_ID r \<noteq> []) g)"
    then obtain r where r: "r \<in> set (takeWhile (\<lambda>r. Argument_ID r \<noteq> []) g)" "n = premise_of db r"
      by blast
    from r(1) have "r \<in> set g" "Argument_ID r \<noteq> []"
      by (auto dest: set_takeWhileD)
    with r(2) show ?thesis by (auto simp: kg)
  next
    assume "n \<in> set (written db groups)"
    with ok have "\<exists>r\<in>set (concat (map snd groups)).
        Argument_ID r \<noteq> [] \<and> (n = position_of db r \<or> n = premise_of db r)"
      by (rule Cons.IH)
    then show ?thesis by auto
  qed
qed

lemma is_position_simps [simp]:
  "is_position (position_of db r)" "\<not> is_position (premise_of db r)"
  by (simp_all add: is_position_def position_of_def premise_of_def)

lemma node_simps [simp]:
  "node_id (position_of db r) = conclusion_id r"
  "node_id (premise_of db r) = premise_id r"
  "node_text (position_of db r) = display_text db (Conclusion r)"
  "node_text (premise_of db r) = display_text db (Premise r)"
  "related_to (metadata (premise_of db r)) = conclusion_id r"
  "argument_id (metadata (premise_of db r)) = Argument_ID r"
  "node_type (metadata (premise_of db r)) = relation r"
  "node_type (metadata (position_of db r)) = Some (lit ''Position'')"
  "original_split (metadata (premise_of db r)) = split r"
  "subdataset (metadata (premise_of db r)) = take 1 (Argument_ID r)"
  "subdataset (metadata (position_of db r)) = take 1 (Argument_ID r)"
  by (simp_all add: position_of_def premise_of_def)

lemma position_ids_written:
  "groups_ok groups \<Longrightarrow> \<exists>m. position_ids (written db groups) = take m (map fst groups)"
proof (induction groups)
  case Nil
  then show ?case by (simp add: position_ids_def)
next
  case (Cons kg groups)
  obtain k g where kg: "kg = (k, g)" by (cases kg)
  from Cons.prems(1) kg have g: "g \<noteq> []" "\<And>r. r \<in> set g \<Longrightarrow> conclusion_id r = k"
    and ok: "groups_ok groups"
    by (simp_all add: groups_ok_Cons)
  from g have k: "conclusion_id (hd g) = k" by simp
  from Cons.IH [OF ok] obtain m where m: "position_ids (written db groups) = take m (map fst groups)" ..
  have prem: "filter is_position (map (premise_of db) rows) = []" for rows
    by (induction rows) simp_all
  consider "Argument_ID (hd g) = []"
    | "Argument_ID (hd g) \<noteq> []" "\<not> (\<forall>r\<in>set g. Argument_ID r \<noteq> [])"
    | "Argument_ID (hd g) \<noteq> []" "\<forall>r\<in>set g. Argument_ID r \<noteq> []"
    by blast
  then show ?case
  proof cases
    case 1
    then have "position_ids (written db (kg # groups)) = take 0 (map fst (kg # groups))"
      by (simp add: kg position_ids_def)
    then show ?thesis ..
  next
    case 2
    then have "position_ids (written db (kg # groups)) = take 1 (map fst (kg # groups))"
      by (auto simp add: kg position_ids_def prem k)
    then show ?thesis ..
  next
    case 3
    then have "position_ids (written db (kg # groups)) = take (Suc m) (map fst (kg # groups))"
      using m by (simp add: kg position_ids_def prem k)
    then show ?thesis ..
  qed
qed

lemma related_to_written:
  "groups_ok groups \<Longrightarrow> n \<in> set (written db groups) \<Longrightarrow> is_premise n \<Longrightarrow>
   related_to (metadata n) \<in> set (position_ids (written db groups))"
proof (induction groups)
  case Nil
  then show ?case by simp
next
  case (Cons kg groups)
  obtain k g where kg: "kg = (k, g)" by (cases kg)
  from Cons.prems(1) kg have g: "g \<noteq> []" "\<And>r. r \<in> set g \<Longrightarrow> conclusion_id r = k"
    and ok: "groups_ok groups"
    by (simp_all add: groups_ok_Cons)
  from g have k: "conclusion_id (hd g) = k" by simp
  from Cons.prems(2) kg have id0: "Argument_ID (hd g) \<noteq> []"
    and n: "n = position_of db (hd g) \<or>
        n \<in> premise_of db ` set (takeWhile (\<lambda>r. Argument_ID r \<noteq> []) g) \<or>
        (\<forall>r\<in>set g. Argument_ID r \<noteq> []) \<and> n \<in> set (written db groups)"
    by (auto split: if_splits)
  have head: "k \<in> set (position_ids (written db (kg # groups)))"
    using id0 k by (simp add: kg position_ids_def)
  from n show ?case
  proof (elim disjE conjE)
    assume "n = position_of db (hd g)"
    with Cons.prems(3) show ?thesis by (simp add: is_premise_iff)
  next
    assume "n \<in> premise_of db ` set (takeWhile (\<lambda>r. Argument_ID r \<noteq> []) g)"
    then obtain r where r: "r \<in> set (takeWhile (\<lambda>r. Argument_ID r \<noteq> []) g)" "n = premise_of db r"
      by blast
    from r(1) have "r \<in> set g" by (auto dest: set_takeWhileD)
    with g(2) r(2) have "related_to (metadata n) = k" by simp
    with head show ?thesis by simp
  next
    assume all: "\<forall>r\<in>set g. Argument_ID r \<noteq> []" and "n \<in> set (written db groups)"
    with ok Cons.prems(3) have "related_to (metadata n) \<in> set (position_ids (written db groups))"
      by (intro Cons.IH)
    with all id0 show ?thesis by (simp add: kg position_ids_def)
  qed
qed

lemma count_position_ids:
  "length (filter (\<lambda>p. is_position p \<and> node_id p = x) fh) =
   length (filter (\<lambda>i. i = x) (position_ids fh))"
  by (induction fh) (simp_all add: position_ids_def)

lemma distinct_count_one:
  "distinct xs \<Longrightarrow> x \<in> set xs \<Longrightarrow> length (filter (\<lambda>i. i = x) xs) = 1"
  by (induction xs) (auto simp: filter_empty_conv)

lemma position_ids_distinct:
  "distinct (position_ids (written db (groupby conclusion_id df)))"
proof -
  from groupby_ok obtain m where
    "position_ids (written db (groupby conclusion_id df)) =
       take m (map fst (groupby conclusion_id df))"
    using position_ids_written by blast
  then show ?thesis by (simp add: groupby_fst)
qed

section \<open>The whole notebook\<close>

lemma add_columns_simps [simp]:
  "Argument_ID (add_columns db label r) = Argument_ID r"
  "Conclusion (add_columns db label r) = Conclusion r"
  "Stance (add_columns db label r) = Stance r"
  "Premise (add_columns db label r) = Premise r"
  "split (add_columns db label r) = lit label"
  "relation (add_columns db label r) = stance_map (Stance r)"
  "conclusion_id (add_columns db label r) = hash_text db (Conclusion r)"
  "premise_id (add_columns db label r) = hash_text db (Premise r)"
  by (simp_all add: add_columns_def)

lemma build_dataset_member:
  "r' \<in> set (build_dataset db train_data dev_data test_data) \<Longrightarrow>
   \<exists>r\<in>set (train_data @ test_data @ dev_data). \<exists>label. r' = add_columns db label r"
  by (auto simp: build_dataset_def)

lemma build_dataset_row:
  "r \<in> set (train_data @ test_data @ dev_data) \<Longrightarrow>
   \<exists>label. add_columns db label r \<in> set (build_dataset db train_data dev_data test_data)"
  by (auto simp: build_dataset_def)

lemma build_dataset_ids:
  "(\<forall>r'\<in>set (build_dataset db train_data dev_data test_data). Argument_ID r' \<noteq> []) \<longleftrightarrow>
   (\<forall>r\<in>set (train_data @ test_data @ dev_data). Argument_ID r \<noteq> [])"
  by (simp add: build_dataset_def ball_Un)



lemma notebook_status:
  "snd (notebook db old_file train_data dev_data test_data) =
     (if \<forall>r\<in>set (train_data @ test_data @ dev_data). Argument_ID r \<noteq> [] then None
      else Some IndexError)"
  unfolding notebook_def save_dataset_status build_dataset_ids ..

lemma notebook_origin:
  assumes "n \<in> set (fst (notebook db old_file train_data dev_data test_data))"
  shows "\<exists>r\<in>set (train_data @ test_data @ dev_data). \<exists>label.
           Argument_ID r \<noteq> [] \<and>
           (n = position_of db (add_columns db label r) \<or>
            n = premise_of db (add_columns db label r))"
proof -
  let ?df = "build_dataset db train_data dev_data test_data"
  from assms have "n \<in> set (written db (groupby conclusion_id ?df))"
    by (simp add: notebook_def save_dataset_written)
  with groupby_ok have "\<exists>r\<in>set (concat (map snd (groupby conclusion_id ?df))).
      Argument_ID r \<noteq> [] \<and> (n = position_of db r \<or> n = premise_of db r)"
    by (rule written_origin)
  then obtain r' where r': "r' \<in> set ?df" "Argument_ID r' \<noteq> []"
    "n = position_of db r' \<or> n = premise_of db r'"
    unfolding groupby_rows by blast
  from build_dataset_member [OF r'(1)] obtain r label
    where "r \<in> set (train_data @ test_data @ dev_data)" "r' = add_columns db label r"
    by blast
  with r'(2,3) show ?thesis by auto
qed

lemma notebook_complete:
  assumes "snd (notebook db old_file train_data dev_data test_data) = None"
  shows "fst (notebook db old_file train_data dev_data test_data) =
           listing db (build_dataset db train_data dev_data test_data)"
proof -
  from assms have "\<forall>r\<in>set (train_data @ test_data @ dev_data). Argument_ID r \<noteq> []"
    by (simp add: notebook_status split: if_splits)
  then have "\<forall>r\<in>set (build_dataset db train_data dev_data test_data). Argument_ID r \<noteq> []"
    by (simp only: build_dataset_ids)
  then show ?thesis
    by (simp add: notebook_def save_dataset_complete)
qed

lemma listing_sorted_keys:
  "listing db df =
     concat (map (\<lambda>k. block_of db (filter (\<lambda>r. conclusion_id r = k) df))
       (sorted_list_of_set (conclusion_id ` set df)))"
proof -
  have "sorted_list_of_set (conclusion_id ` set df) = sort (remdups (map conclusion_id df))"
    using sorted_list_of_set_sort_remdups [of "map conclusion_id df"] by simp
  then show ?thesis by (simp add: listing_def groupby_def comp_def)
qed

lemma filter_is_premise_block:
  "filter is_premise (block_of db g) = map (premise_of db) g"
  "filter is_position (block_of db g) = [position_of db (hd g)]"
proof -
  have "filter is_premise (map (premise_of db) g) = map (premise_of db) g"
    by (induction g) (simp_all add: is_premise_iff)
  then show "filter is_premise (block_of db g) = map (premise_of db) g"
    by (simp add: block_of_def is_premise_iff)
  have "filter is_position (map (premise_of db) g) = []"
    by (induction g) simp_all
  then show "filter is_position (block_of db g) = [position_of db (hd g)]"
    by (simp add: block_of_def)
qed

lemma listing_premises:
  "filter is_premise (listing db df) =
     map (premise_of db) (concat (map snd (groupby conclusion_id df)))"
proof -
  have "filter is_premise (concat (map (\<lambda>(k, g). block_of db g) groups)) =
      map (premise_of db) (concat (map snd groups))" for groups
    by (induction groups) (auto simp: filter_is_premise_block)
  then show ?thesis by (simp add: listing_def)
qed

lemma listing_positions:
  "map node_id (filter is_position (listing db df)) = sort (remdups (map conclusion_id df))"
proof -
  have "groups_ok groups \<Longrightarrow>
      map node_id (filter is_position (concat (map (\<lambda>(k, g). block_of db g) groups))) =
      map fst groups" for groups
    by (induction groups) (auto simp: filter_is_premise_block groups_ok_Cons)
  with groupby_ok show ?thesis
    unfolding listing_def groupby_fst [symmetric] by blast
qed




lemma notebook_unique_position:
  assumes "x \<in> set (position_ids (fst (notebook db old_file train_data dev_data test_data)))"
  shows "length (filter (\<lambda>p. is_position p \<and> node_id p = x)
           (fst (notebook db old_file train_data dev_data test_data))) = 1"
proof -
  let ?out = "fst (notebook db old_file train_data dev_data test_data)"
  have "distinct (position_ids ?out)"
    by (simp add: notebook_def save_dataset_written position_ids_distinct)
  with assms have "length (filter (\<lambda>i. i = x) (position_ids ?out)) = 1"
    by (intro distinct_count_one)
  then show ?thesis by (simp only: count_position_ids)
qed

lemma notebook_related_to:
  assumes "n \<in> set (fst (notebook db old_file train_data dev_data test_data))" "is_premise n"
  shows "related_to (metadata n) \<in>
           set (position_ids (fst (notebook db old_file train_data dev_data test_data)))"
  using assms groupby_ok
  by (simp add: notebook_def save_dataset_written related_to_written)


section \<open>The example\<close>

lemmas text_eval =
  normal_form_def str_strip_def str_lower_def lower_ucs4_def handle_capital_sigma_def
  remove_whitespace_def Py_UNICODE_ISSPACE_def ucd_excerpt_def lit_def

lemma digest_banit: "xxh64_hexdigest (lit ''banit'') 42 = lit ''c2e83ac0f46cab19''"
  by (simp add: xxh64_eval lit_def)

lemma digest_go: "xxh64_hexdigest (lit ''go'') 42 = lit ''534d2516125c25c9''"
  by (simp add: xxh64_eval lit_def)

lemma digest_no: "xxh64_hexdigest (lit ''no'') 42 = lit ''83062306928d32b1''"
  by (simp add: xxh64_eval lit_def)

lemma digest_yes: "xxh64_hexdigest (lit ''yes'') 42 = lit ''a96d72bfa5b8e84c''"
  by (simp add: xxh64_eval lit_def)

lemma example_normal_forms:
  "normal_form ucd_excerpt (lit '' Ban It'') = lit ''banit''"
  "normal_form ucd_excerpt (lit ''ban  it'') = lit ''banit''"
  "normal_form ucd_excerpt (lit ''Go'') = lit ''go''"
  "normal_form ucd_excerpt (lit ''No'') = lit ''no''"
  "normal_form ucd_excerpt (lit ''no'') = lit ''no''"
  "normal_form ucd_excerpt (lit ''Yes'') = lit ''yes''"
  by (simp_all add: text_eval)

lemma example_hashes:
  "hash_text ucd_excerpt (lit '' Ban It'') = lit ''c2e83ac0f46cab19''"
  "hash_text ucd_excerpt (lit ''ban  it'') = lit ''c2e83ac0f46cab19''"
  "hash_text ucd_excerpt (lit ''Go'') = lit ''534d2516125c25c9''"
  "hash_text ucd_excerpt (lit ''No'') = lit ''83062306928d32b1''"
  "hash_text ucd_excerpt (lit ''no'') = lit ''83062306928d32b1''"
  "hash_text ucd_excerpt (lit ''Yes'') = lit ''a96d72bfa5b8e84c''"
  by (simp_all only: hash_text_normal_form example_normal_forms digest_banit digest_go
      digest_no digest_yes)

lemma example_display:
  "display_text ucd_excerpt (lit '' Ban It'') = lit ''Ban It''"
  "display_text ucd_excerpt (lit ''Go'') = lit ''Go''"
  "display_text ucd_excerpt (lit ''No'') = lit ''No''"
  "display_text ucd_excerpt (lit ''no'') = lit ''no''"
  "display_text ucd_excerpt (lit ''Yes'') = lit ''Yes''"
  by (simp_all add: display_text_def str_split_def text_eval)

lemma example_stances:
  "stance_map (lit ''against'') = Some (lit ''Attack'')"
  "stance_map (lit ''in favor of'') = Some (lit ''Support'')"
  "stance_map (lit ''neutral'') = None"
  by (simp_all add: stance_map_def lit_def)

lemma example_build:
  "build_dataset ucd_excerpt example_train example_dev example_test = example_rows"
  by (simp add: build_dataset_def add_columns_def example_train_def example_test_def
      example_dev_def example_rows_def example_hashes example_stances)

lemma example_groupby:
  "groupby conclusion_id example_rows =
     [(lit ''534d2516125c25c9'', [example_rows ! 2]),
      (lit ''c2e83ac0f46cab19'', [example_rows ! 0, example_rows ! 1])]"
  by (simp add: groupby_def example_rows_def lit_def)

lemma example_save:
  "save_dataset ucd_excerpt old_file example_rows = (example_output, None)"
  unfolding save_dataset_def example_groupby
  by (simp add: example_rows_def example_output_def open_wt_def conclusion_node_def
      premise_node_def str_getitem_def print_line_def str_split_def text_eval)

lemma example_notebook:
  "notebook ucd_excerpt old_file example_train example_dev example_test = (example_output, None)"
  by (simp only: notebook_def example_build example_save)

section \<open>The claims about the output\<close>

lemma notebook_row_premise:
  assumes "snd (notebook db old_file train_data dev_data test_data) = None"
    and "r \<in> set (train_data @ test_data @ dev_data)"
  shows "\<exists>n\<in>set (fst (notebook db old_file train_data dev_data test_data)).
           is_premise n \<and> argument_id (metadata n) = Argument_ID r \<and>
           node_id n = hash_text db (Premise r) \<and> node_type (metadata n) = stance_map (Stance r)"
proof -
  let ?df = "build_dataset db train_data dev_data test_data"
  from build_dataset_row [OF assms(2)] obtain label where "add_columns db label r \<in> set ?df"
    by blast
  then have "premise_of db (add_columns db label r) \<in>
      set (map (premise_of db) (concat (map snd (groupby conclusion_id ?df))))"
    by (simp only: set_map groupby_rows) (rule imageI)
  then have "premise_of db (add_columns db label r) \<in> set (filter is_premise (listing db ?df))"
    by (simp only: listing_premises)
  then have "premise_of db (add_columns db label r) \<in>
      set (fst (notebook db old_file train_data dev_data test_data))"
    by (simp add: notebook_complete [OF assms(1)])
  then show ?thesis
    by (rule rev_bexI) (simp add: is_premise_iff)
qed

lemma example_members:
  "example_output ! 0 \<in> set example_output" "example_output ! 1 \<in> set example_output"
  "example_output ! 2 \<in> set example_output" "example_output ! 3 \<in> set example_output"
  "example_output ! 4 \<in> set example_output"
  by (simp_all add: example_output_def)

text \<open>
  Claim C1. In the file that a run leaves, complete or not, every premise node has a
  \<^verbatim>\<open>related_to\<close> field (a string, never null) that is the id of exactly one position node
  of the file, and the id of every position node is the id of exactly one position node,
  however many rows share the conclusion.
\<close>

theorem related_to_unique_position:
  assumes "out = fst (notebook db old_file train_data dev_data test_data)"
  shows "(\<forall>n\<in>set out. is_premise n \<longrightarrow>
            length (filter (\<lambda>p. is_position p \<and> node_id p = related_to (metadata n)) out) = 1) \<and>
         (\<forall>p\<in>set out. is_position p \<longrightarrow>
            length (filter (\<lambda>q. is_position q \<and> node_id q = node_id p) out) = 1)"
proof (intro conjI ballI impI)
  fix n assume "n \<in> set out" "is_premise n"
  then have "related_to (metadata n) \<in> set (position_ids out)"
    unfolding assms by (rule notebook_related_to)
  then show "length (filter (\<lambda>p. is_position p \<and> node_id p = related_to (metadata n)) out) = 1"
    unfolding assms by (rule notebook_unique_position)
next
  fix p assume "p \<in> set out" "is_position p"
  then have "node_id p \<in> set (position_ids out)"
    by (simp add: position_ids_def)
  then show "length (filter (\<lambda>q. is_position q \<and> node_id q = node_id p) out) = 1"
    unfolding assms by (rule notebook_unique_position)
qed

theorem related_to_unique_position_witness:
  "fst (notebook ucd_excerpt [] example_train example_dev example_test) = example_output \<and>
   is_premise (example_output ! 3) \<and> is_premise (example_output ! 4) \<and>
   related_to (metadata (example_output ! 3)) = lit ''c2e83ac0f46cab19'' \<and>
   related_to (metadata (example_output ! 4)) = lit ''c2e83ac0f46cab19'' \<and>
   is_position (example_output ! 2) \<and> node_id (example_output ! 2) = lit ''c2e83ac0f46cab19'' \<and>
   length (filter (\<lambda>p. is_position p \<and> node_id p = lit ''c2e83ac0f46cab19'') example_output) = 1"
proof -
  have out: "example_output = fst (notebook ucd_excerpt [] example_train example_dev example_test)"
    by (simp add: example_notebook)
  have facts: "is_premise (example_output ! 3)" "is_premise (example_output ! 4)"
    "related_to (metadata (example_output ! 3)) = lit ''c2e83ac0f46cab19''"
    "related_to (metadata (example_output ! 4)) = lit ''c2e83ac0f46cab19''"
    "is_position (example_output ! 2)" "node_id (example_output ! 2) = lit ''c2e83ac0f46cab19''"
    by (simp_all add: example_output_def is_premise_def is_position_def)
  from related_to_unique_position [OF out] example_members(4) facts(1)
  have "length (filter (\<lambda>p. is_position p \<and> node_id p = related_to (metadata (example_output ! 3)))
      example_output) = 1"
    by blast
  with facts out show ?thesis by simp
qed




text \<open>
  Claim C4. After a run that completes, the output is the concatenation of the blocks of
  the groups, in ascending order of the conclusion ids: the position node of the first row
  of the group, then the premise nodes of its rows in the order of the table. The ids of
  the position nodes ascend strictly.
\<close>

theorem output_order:
  assumes "notebook db old_file train_data dev_data test_data = (out, None)"
    and "df = build_dataset db train_data dev_data test_data"
  shows "out = concat (map (\<lambda>k. block_of db (filter (\<lambda>r. conclusion_id r = k) df))
                 (sorted_list_of_set (conclusion_id ` set df))) \<and>
         sorted_wrt (<) (map node_id (filter is_position out))"
proof -
  from assms(1) have "snd (notebook db old_file train_data dev_data test_data) = None"
    and out: "fst (notebook db old_file train_data dev_data test_data) = out"
    by simp_all
  from notebook_complete [OF this(1)] have "out = listing db df"
    by (simp add: out assms(2))
  moreover have "sorted_wrt (<) (sort (remdups (map conclusion_id df)))"
    by (simp add: strict_sorted_iff)
  ultimately show ?thesis
    by (simp only: listing_positions) (simp add: listing_sorted_keys)
qed

theorem output_order_witness:
  "notebook ucd_excerpt [] example_train example_dev example_test = (example_output, None) \<and>
   build_dataset ucd_excerpt example_train example_dev example_test = example_rows \<and>
   sorted_list_of_set (conclusion_id ` set example_rows) =
     [lit ''534d2516125c25c9'', lit ''c2e83ac0f46cab19''] \<and>
   example_output =
     block_of ucd_excerpt [example_rows ! 2] @ block_of ucd_excerpt [example_rows ! 0, example_rows ! 1] \<and>
   map node_id (filter is_position example_output) =
     [lit ''534d2516125c25c9'', lit ''c2e83ac0f46cab19'']"
proof -
  have keys: "sorted_list_of_set (conclusion_id ` set example_rows) =
      [lit ''534d2516125c25c9'', lit ''c2e83ac0f46cab19'']"
    using sorted_list_of_set_sort_remdups [of "map conclusion_id example_rows"]
    by (simp add: example_rows_def lit_def)
  have g: "filter (\<lambda>r. conclusion_id r = lit ''534d2516125c25c9'') example_rows = [example_rows ! 2]"
    "filter (\<lambda>r. conclusion_id r = lit ''c2e83ac0f46cab19'') example_rows =
       [example_rows ! 0, example_rows ! 1]"
    by (simp_all add: example_rows_def lit_def)
  have pos: "map node_id (filter is_position example_output) =
      [lit ''534d2516125c25c9'', lit ''c2e83ac0f46cab19'']"
    by (simp add: example_output_def is_position_def)
  from output_order [OF example_notebook [of "[]"] example_build [symmetric]]
  have "example_output =
      block_of ucd_excerpt [example_rows ! 2] @ block_of ucd_excerpt [example_rows ! 0, example_rows ! 1]"
    by (simp add: keys g)
  with keys pos show ?thesis by (simp add: example_notebook example_build)
qed

text \<open>
  Claim C5. The relation of a row is looked up in a dictionary of two entries: the stance
  \<^verbatim>\<open>against\<close> gives \<^verbatim>\<open>Attack\<close>, \<^verbatim>\<open>in favor of\<close> gives \<^verbatim>\<open>Support\<close>, and any other stance gives a
  missing relation. Whatever the stances are, a run on rows that all have an argument id
  raises no error, and it prints for every row a premise node whose type is the relation
  looked up for the stance of the row: missing when the stance is not in the dictionary.
\<close>

theorem stance_relation:
  "stance_map (lit ''against'') = Some (lit ''Attack'') \<and>
   stance_map (lit ''in favor of'') = Some (lit ''Support'') \<and>
   (s \<noteq> lit ''against'' \<and> s \<noteq> lit ''in favor of'' \<longrightarrow> stance_map s = None) \<and>
   ((\<forall>r\<in>set (train_data @ test_data @ dev_data). Argument_ID r \<noteq> []) \<longrightarrow>
      snd (notebook db old_file train_data dev_data test_data) = None \<and>
      (\<forall>r\<in>set (train_data @ test_data @ dev_data).
         \<exists>n\<in>set (fst (notebook db old_file train_data dev_data test_data)).
           is_premise n \<and> argument_id (metadata n) = Argument_ID r \<and>
           node_id n = hash_text db (Premise r) \<and>
           node_type (metadata n) = stance_map (Stance r)))"
proof (intro conjI impI ballI)
  show "stance_map (lit ''against'') = Some (lit ''Attack'')"
    by (simp add: stance_map_def lit_def)
  show "stance_map (lit ''in favor of'') = Some (lit ''Support'')"
    by (simp add: stance_map_def lit_def)
  show "stance_map s = None" if "s \<noteq> lit ''against'' \<and> s \<noteq> lit ''in favor of''"
    using that by (simp add: stance_map_def)
next
  assume ids: "\<forall>r\<in>set (train_data @ test_data @ dev_data). Argument_ID r \<noteq> []"
  then show status: "snd (notebook db old_file train_data dev_data test_data) = None"
    by (simp add: notebook_status)
  fix r assume "r \<in> set (train_data @ test_data @ dev_data)"
  with status show "\<exists>n\<in>set (fst (notebook db old_file train_data dev_data test_data)).
           is_premise n \<and> argument_id (metadata n) = Argument_ID r \<and>
           node_id n = hash_text db (Premise r) \<and>
           node_type (metadata n) = stance_map (Stance r)"
    by (rule notebook_row_premise)
qed

theorem stance_relation_witness:
  "lit ''neutral'' \<noteq> lit ''against'' \<and> lit ''neutral'' \<noteq> lit ''in favor of'' \<and>
   stance_map (lit ''neutral'') = None \<and>
   Stance (example_dev ! 0) = lit ''neutral'' \<and>
   notebook ucd_excerpt [] example_train example_dev example_test = (example_output, None) \<and>
   is_premise (example_output ! 1) \<and>
   argument_id (metadata (example_output ! 1)) = Argument_ID (example_dev ! 0) \<and>
   node_type (metadata (example_output ! 1)) = None \<and>
   node_type (metadata (example_output ! 3)) = Some (lit ''Attack'') \<and>
   node_type (metadata (example_output ! 4)) = Some (lit ''Support'')"
proof -
  have ne: "lit ''neutral'' \<noteq> lit ''against'' \<and> lit ''neutral'' \<noteq> lit ''in favor of''"
    by (simp add: lit_def)
  with stance_relation [of "lit ''neutral''" "[]" "[]" "[]" ucd_excerpt "[]"]
  have "stance_map (lit ''neutral'') = None" by blast
  moreover have "Stance (example_dev ! 0) = lit ''neutral''"
    "argument_id (metadata (example_output ! 1)) = Argument_ID (example_dev ! 0)"
    "is_premise (example_output ! 1)"
    "node_type (metadata (example_output ! 1)) = None"
    "node_type (metadata (example_output ! 3)) = Some (lit ''Attack'')"
    "node_type (metadata (example_output ! 4)) = Some (lit ''Support'')"
    by (simp_all add: example_dev_def example_output_def is_premise_def)
  ultimately show ?thesis using ne example_notebook [of "[]"] by simp
qed




text \<open>
  Claim C7. In the file that a run leaves, the text of every node is the NFKD form of a
  source text, trimmed and with its words joined by single spaces, no letter changed in
  case: the conclusion of a row for a position node, the premise of a row for a premise
  node. The id of the node is the content id of that source text itself, not of the text
  shown.
\<close>

theorem node_text_display:
  assumes "n \<in> set (fst (notebook db old_file train_data dev_data test_data))"
  shows "\<exists>r\<in>set (train_data @ test_data @ dev_data).
           (is_position n \<and>
            node_text n = NFKD db (str_join (lit '' '') (str_split (str_strip (Conclusion r)))) \<and>
            node_id n = hash_text db (Conclusion r)) \<or>
           (is_premise n \<and>
            node_text n = NFKD db (str_join (lit '' '') (str_split (str_strip (Premise r)))) \<and>
            node_id n = hash_text db (Premise r))"
proof -
  from notebook_origin [OF assms] obtain r label
    where r: "r \<in> set (train_data @ test_data @ dev_data)"
      and n: "n = position_of db (add_columns db label r) \<or> n = premise_of db (add_columns db label r)"
    by blast
  from n have "(is_position n \<and> node_text n = display_text db (Conclusion r) \<and>
        node_id n = hash_text db (Conclusion r)) \<or>
      (is_premise n \<and> node_text n = display_text db (Premise r) \<and>
        node_id n = hash_text db (Premise r))"
    by (auto simp: is_premise_iff)
  with r show ?thesis unfolding display_text_def by (rule rev_bexI)
qed

theorem node_text_display_witness:
  "example_output ! 2 \<in> set (fst (notebook ucd_excerpt [] example_train example_dev example_test)) \<and>
   is_position (example_output ! 2) \<and>
   Conclusion (example_train ! 0) = lit '' Ban It'' \<and>
   node_text (example_output ! 2) = lit ''Ban It'' \<and>
   node_id (example_output ! 2) = hash_text ucd_excerpt (lit '' Ban It'') \<and>
   (\<exists>r\<in>set (example_train @ example_test @ example_dev).
      node_text (example_output ! 2) =
        NFKD ucd_excerpt (str_join (lit '' '') (str_split (str_strip (Conclusion r)))) \<and>
      node_id (example_output ! 2) = hash_text ucd_excerpt (Conclusion r))"
proof -
  have mem: "example_output ! 2 \<in> set (fst (notebook ucd_excerpt [] example_train example_dev example_test))"
    by (simp add: example_notebook example_members)
  have facts: "is_position (example_output ! 2)" "\<not> is_premise (example_output ! 2)"
    "node_text (example_output ! 2) = lit ''Ban It''"
    "node_id (example_output ! 2) = hash_text ucd_excerpt (lit '' Ban It'')"
    "Conclusion (example_train ! 0) = lit '' Ban It''"
    by (simp_all add: example_output_def example_train_def is_position_def is_premise_def
        example_hashes)
  from node_text_display [OF mem] facts(2)
  have "\<exists>r\<in>set (example_train @ example_test @ example_dev).
      node_text (example_output ! 2) =
        NFKD ucd_excerpt (str_join (lit '' '') (str_split (str_strip (Conclusion r)))) \<and>
      node_id (example_output ! 2) = hash_text ucd_excerpt (Conclusion r)"
    by blast
  with mem facts show ?thesis by simp
qed




end
